theory Spec2Isabelle
  imports Main "HOL-Library.AList"
begin

section \<open>The presentation relay server\<close>

text \<open>
  The relay is the Socket.IO server of the repository: four process-wide \<open>Map\<close>s
  (\<open>presentationWindows\<close>, \<open>controlPanels\<close>, \<open>messageQueue\<close>, \<open>heartbeats\<close>),
  one handler per event of a connected socket, and two interval timers.
  Each handler is a function from the state before to the state after, together with the
  events it emits and the acknowledgement it passes to the client's callback.
\<close>

subsection \<open>Values\<close>

text \<open>\<open>socket.id\<close> is a string; \<open>Date.now()\<close> is a number of milliseconds.\<close>

type_synonym sid = string

text \<open>The object \<open>{ connectedAt, lastHeartbeat }\<close> stored in both role maps.\<close>

record meta =
  connectedAt :: int
  lastHeartbeat :: int

text \<open>
  What an emitted event carries: a value received from a client (opaque, type \<open>'p\<close>),
  a role-map entry \<open>{ connectedAt, lastHeartbeat }\<close>, an object \<open>{ id }\<close>, or nothing.
\<close>

datatype 'p jsdata = Client 'p | Meta meta | IdObj sid | NoArgs

text \<open>The argument of the acknowledgement callback: \<open>{ success: true }\<close> or \<open>{ error }\<close>.\<close>

datatype ack = Success | Error string

text \<open>An element \<open>{ event, data }\<close> of a \<open>messageQueue\<close> array.\<close>

record 'p msg =
  event :: string
  data :: "'p jsdata"

text \<open>An emitted event: the socket it is written to, the event name, the data.\<close>

type_synonym 'p emit = "sid \<times> string \<times> 'p jsdata"

subsection \<open>JavaScript Maps\<close>

text \<open>
  A \<open>Map\<close> iterates in insertion order, \<open>set\<close> on a present key keeps its position and
  \<open>delete\<close> removes the key: an association list with \<open>AList.update\<close> and
  \<open>AList.delete\<close>.
\<close>

abbreviation Map_set :: "'k \<Rightarrow> 'v \<Rightarrow> ('k \<times> 'v) list \<Rightarrow> ('k \<times> 'v) list" where
  "Map_set \<equiv> AList.update"

abbreviation Map_delete :: "'k \<Rightarrow> ('k \<times> 'v) list \<Rightarrow> ('k \<times> 'v) list" where
  "Map_delete \<equiv> AList.delete"

abbreviation Map_get :: "'k \<Rightarrow> ('k \<times> 'v) list \<Rightarrow> 'v option" where
  "Map_get k m \<equiv> map_of m k"

definition Map_has :: "'k \<Rightarrow> ('k \<times> 'v) list \<Rightarrow> bool" where
  "Map_has k m = (map_of m k \<noteq> None)"

definition keys :: "('k \<times> 'v) list \<Rightarrow> 'k set" where
  "keys m = fst ` set m"

subsection \<open>State\<close>

record 'p relay =
  presentationWindows :: "(sid \<times> meta) list"
  controlPanels :: "(sid \<times> meta) list"
  messageQueue :: "(sid \<times> 'p msg list) list"
  heartbeats :: "(sid \<times> int) list"

definition HEARTBEAT_TIMEOUT :: int where
  "HEARTBEAT_TIMEOUT = 60000"

definition staleTimeout :: int where
  "staleTimeout = 5 * 60 * 1000"

text \<open>
  \<open>io.sockets.sockets\<close> belongs to the Socket.IO library: the table of sockets, each with
  its \<open>connected\<close> flag. The handlers only read it, so it is a parameter of theirs.
  \<open>connected io i\<close> is the test \<open>socket && socket.connected\<close> on
  \<open>io.sockets.sockets.get(i)\<close>.
\<close>

type_synonym sockets = "sid \<Rightarrow> bool option"

definition connected :: "sockets \<Rightarrow> sid \<Rightarrow> bool" where
  "connected io i = (io i = Some True)"

subsection \<open>Handlers of a socket\<close>

text \<open>
  \<open>io.on('connection')\<close>: stamp the heartbeat, then emit and delete what is queued for this
  identifier. An array is truthy also when empty, so the queue is deleted whenever present.
\<close>

definition on_connection :: "sid \<Rightarrow> int \<Rightarrow> 'p relay \<Rightarrow> 'p relay \<times> 'p emit list" where
  "on_connection i now s =
     (let s1 = s\<lparr>heartbeats := Map_set i now (heartbeats s)\<rparr>
      in case Map_get i (messageQueue s1) of
           Some queuedMessages \<Rightarrow>
             (s1\<lparr>messageQueue := Map_delete i (messageQueue s1)\<rparr>,
              map (\<lambda>m. (i, event m, data m)) queuedMessages)
         | None \<Rightarrow> (s1, []))"

text \<open>\<open>socket.on('ping')\<close>.\<close>

definition on_ping :: "sid \<Rightarrow> int \<Rightarrow> 'p relay \<Rightarrow> 'p relay \<times> 'p emit list" where
  "on_ping i now s =
     (s\<lparr>heartbeats := Map_set i now (heartbeats s)\<rparr>, [(i, ''pong'', NoArgs)])"

text \<open>
  \<open>socket.on('registerPresentation')\<close>. The handler never reads its \<open>data\<close> argument.
  \<open>io.to(controlId).emit\<close> writes to the sockets in the room \<open>controlId\<close>, that is to the
  socket of that identifier when the table has one. The two \<open>Date.now()\<close> reads of the
  object literal are taken at the same instant \<open>now\<close>. \<open>callback\<close> says whether the client
  supplied a function; nothing in the \<open>try\<close> block throws, so the \<open>catch\<close> branch and its
  \<open>{ error }\<close> acknowledgement are never taken.
\<close>

definition on_registerPresentation ::
  "sockets \<Rightarrow> sid \<Rightarrow> int \<Rightarrow> 'p \<Rightarrow> bool \<Rightarrow> 'p relay \<Rightarrow> 'p relay \<times> 'p emit list \<times> ack option" where
  "on_registerPresentation io i now regdata callback s =
     (s\<lparr>presentationWindows :=
          Map_set i \<lparr>connectedAt = now, lastHeartbeat = now\<rparr> (presentationWindows s)\<rparr>,
      map (\<lambda>(controlId, cdata). (controlId, ''presentationConnected'', IdObj i))
        (filter (\<lambda>(controlId, cdata). io controlId \<noteq> None) (controlPanels s)),
      if callback then Some Success else None)"

text \<open>\<open>socket.on('registerControl')\<close>.\<close>

definition on_registerControl ::
  "sid \<Rightarrow> int \<Rightarrow> 'p \<Rightarrow> bool \<Rightarrow> 'p relay \<Rightarrow> 'p relay \<times> 'p emit list \<times> ack option" where
  "on_registerControl i now regdata callback s =
     (s\<lparr>controlPanels :=
          Map_set i \<lparr>connectedAt = now, lastHeartbeat = now\<rparr> (controlPanels s)\<rparr>,
      [],
      if callback then Some Success else None)"

text \<open>
  The body of \<open>presentationWindows.forEach((data, windowId) => ...)\<close> in the
  \<open>presentationUpdate\<close> handler. The callback's first parameter is the Map's value and is
  named \<open>data\<close>, so inside the body \<open>data\<close> is the entry of \<open>presentationWindows\<close>
  (here \<open>wdata\<close>), not the handler's argument. After \<open>has\<close>/\<open>set\<close> the \<open>get\<close> is
  never undefined; \<open>push\<close> changes the array the Map holds.
\<close>

fun forward_to_window ::
  "sockets \<Rightarrow> sid \<times> meta \<Rightarrow> (sid \<times> 'p msg list) list \<times> 'p emit list
     \<Rightarrow> (sid \<times> 'p msg list) list \<times> 'p emit list" where
  "forward_to_window io (windowId, wdata) (mq, out) =
     (if connected io windowId then
        (mq, out @ [(windowId, ''presentationUpdate'', Meta wdata)])
      else
        (let mq1 = (if \<not> Map_has windowId mq then Map_set windowId [] mq else mq)
         in case Map_get windowId mq1 of
              Some q \<Rightarrow>
                (Map_set windowId (q @ [\<lparr>event = ''presentationUpdate'', data = Meta wdata\<rparr>]) mq1,
                 out)
            | None \<Rightarrow> (mq1, out)))"

text \<open>
  \<open>socket.on('presentationUpdate')\<close>. \<open>sender\<close> is \<open>socket.id\<close>, which the handler only
  logs; \<open>payload\<close> is the handler's \<open>data\<close> argument.
\<close>

definition on_presentationUpdate ::
  "sockets \<Rightarrow> sid \<Rightarrow> 'p \<Rightarrow> bool \<Rightarrow> 'p relay \<Rightarrow> 'p relay \<times> 'p emit list \<times> ack option" where
  "on_presentationUpdate io sender payload callback s =
     (case fold (forward_to_window io) (presentationWindows s) (messageQueue s, []) of
        (mq, out) \<Rightarrow>
          (s\<lparr>messageQueue := mq\<rparr>, out, if callback then Some Success else None))"

text \<open>
  \<open>socket.on('disconnect')\<close>. In the loop over \<open>controlPanels\<close> the local
  \<open>const socket = io.sockets.sockets.get(controlId)\<close> hides the closing socket, so the
  \<open>socket.id\<close> of the emitted object is \<open>controlId\<close>.
\<close>

definition on_disconnect :: "sockets \<Rightarrow> sid \<Rightarrow> 'p relay \<Rightarrow> 'p relay \<times> 'p emit list" where
  "on_disconnect io i s =
     (let (s1, out) =
            (if Map_has i (presentationWindows s) then
               (s\<lparr>presentationWindows := Map_delete i (presentationWindows s)\<rparr>,
                map (\<lambda>(controlId, cdata). (controlId, ''presentationDisconnected'', IdObj controlId))
                  (filter (\<lambda>(controlId, cdata). connected io controlId) (controlPanels s)))
             else (s, []))
      in (s1\<lparr>controlPanels := Map_delete i (controlPanels s1),
             messageQueue := Map_delete i (messageQueue s1),
             heartbeats := Map_delete i (heartbeats s1)\<rparr>,
          out))"

subsection \<open>Timers\<close>

text \<open>
  \<open>socket.disconnect(true)\<close> is the library's: on a connected socket it takes the socket
  out of \<open>io.sockets.sockets\<close> and runs the \<open>disconnect\<close> handler before it returns; on a
  socket that is not connected it returns at once.
\<close>

definition socket_disconnect ::
  "sid \<Rightarrow> sockets \<times> 'p relay \<times> 'p emit list \<Rightarrow> sockets \<times> 'p relay \<times> 'p emit list" where
  "socket_disconnect i = (\<lambda>(io, s, out).
     if connected io i then
       (let io1 = io(i := None); (s1, out1) = on_disconnect io1 i s
        in (io1, s1, out @ out1))
     else (io, s, out))"

text \<open>The body of the heartbeat check for one entry of the snapshot \<open>[...heartbeats.entries()]\<close>.\<close>

fun heartbeat_entry ::
  "int \<Rightarrow> sid \<times> int \<Rightarrow> sockets \<times> 'p relay \<times> 'p emit list \<Rightarrow> sockets \<times> 'p relay \<times> 'p emit list" where
  "heartbeat_entry now (socketId, lastBeat) (io, s, out) =
     (if now - lastBeat > HEARTBEAT_TIMEOUT then
        (case (if io socketId \<noteq> None then socket_disconnect socketId (io, s, out)
               else (io, s, out)) of
           (io1, s1, out1) \<Rightarrow>
             (io1, s1\<lparr>heartbeats := Map_delete socketId (heartbeats s1)\<rparr>, out1))
      else (io, s, out))"

definition heartbeat_check ::
  "int \<Rightarrow> sockets \<Rightarrow> 'p relay \<Rightarrow> sockets \<times> 'p relay \<times> 'p emit list" where
  "heartbeat_check now io s = fold (heartbeat_entry now) (heartbeats s) (io, s, [])"

text \<open>The stale-connection sweep: each role map against its own snapshot.\<close>

fun stale_entry :: "int \<Rightarrow> sid \<times> meta \<Rightarrow> (sid \<times> meta) list \<Rightarrow> (sid \<times> meta) list" where
  "stale_entry now (i, d) m =
     (if now - lastHeartbeat d > staleTimeout then Map_delete i m else m)"

definition stale_cleanup :: "int \<Rightarrow> 'p relay \<Rightarrow> 'p relay" where
  "stale_cleanup now s =
     (let s1 = s\<lparr>presentationWindows :=
                  fold (stale_entry now) (presentationWindows s) (presentationWindows s)\<rparr>
      in s1\<lparr>controlPanels := fold (stale_entry now) (controlPanels s1) (controlPanels s1)\<rparr>)"

subsection \<open>The server as a transition system\<close>

text \<open>
  The sockets table, the relay state, and what has been written to each socket and passed
  to each callback so far. A socket's handlers run only while it is connected; a
  connection gets an identifier the table does not hold; when a transport closes, the
  library takes the socket out of the table and runs the \<open>disconnect\<close> handler, as in
  \<open>socket.disconnect\<close>.
\<close>

record 'p sys =
  sockets :: sockets
  server :: "'p relay"
  sent :: "'p emit list"
  acks :: "(sid \<times> ack) list"

datatype 'p input =
    Connect sid int
  | Ping sid int
  | RegisterPresentation sid int 'p bool
  | RegisterControl sid int 'p bool
  | PresentationUpdate sid 'p bool
  | Disconnect sid
  | HeartbeatCheck int
  | StaleCleanup int

definition ack_of :: "sid \<Rightarrow> ack option \<Rightarrow> (sid \<times> ack) list" where
  "ack_of i a = (case a of Some r \<Rightarrow> [(i, r)] | None \<Rightarrow> [])"

fun step :: "'p input \<Rightarrow> 'p sys \<Rightarrow> 'p sys" where
  "step (Connect i now) y =
     (if sockets y i \<noteq> None then y
      else case on_connection i now (server y) of
        (s, out) \<Rightarrow> y\<lparr>sockets := (sockets y)(i \<mapsto> True), server := s, sent := sent y @ out\<rparr>)"
| "step (Ping i now) y =
     (if connected (sockets y) i then
        case on_ping i now (server y) of
          (s, out) \<Rightarrow> y\<lparr>server := s, sent := sent y @ out\<rparr>
      else y)"
| "step (RegisterPresentation i now regdata callback) y =
     (if connected (sockets y) i then
        case on_registerPresentation (sockets y) i now regdata callback (server y) of
          (s, out, a) \<Rightarrow> y\<lparr>server := s, sent := sent y @ out, acks := acks y @ ack_of i a\<rparr>
      else y)"
| "step (RegisterControl i now regdata callback) y =
     (if connected (sockets y) i then
        case on_registerControl i now regdata callback (server y) of
          (s, out, a) \<Rightarrow> y\<lparr>server := s, sent := sent y @ out, acks := acks y @ ack_of i a\<rparr>
      else y)"
| "step (PresentationUpdate i payload callback) y =
     (if connected (sockets y) i then
        case on_presentationUpdate (sockets y) i payload callback (server y) of
          (s, out, a) \<Rightarrow> y\<lparr>server := s, sent := sent y @ out, acks := acks y @ ack_of i a\<rparr>
      else y)"
| "step (Disconnect i) y =
     (case socket_disconnect i (sockets y, server y, []) of
        (io, s, out) \<Rightarrow> y\<lparr>sockets := io, server := s, sent := sent y @ out\<rparr>)"
| "step (HeartbeatCheck now) y =
     (case heartbeat_check now (sockets y) (server y) of
        (io, s, out) \<Rightarrow> y\<lparr>sockets := io, server := s, sent := sent y @ out\<rparr>)"
| "step (StaleCleanup now) y = y\<lparr>server := stale_cleanup now (server y)\<rparr>"

definition run :: "'p input list \<Rightarrow> 'p sys \<Rightarrow> 'p sys" where
  "run evs y = fold step evs y"

definition start :: "'p sys" where
  "start = \<lparr>sockets = Map.empty,
            server = \<lparr>presentationWindows = [], controlPanels = [], messageQueue = [],
                      heartbeats = []\<rparr>,
            sent = [], acks = []\<rparr>"

text \<open>What has been written to socket \<open>i\<close>, in order.\<close>

definition received :: "sid \<Rightarrow> 'p emit list \<Rightarrow> (string \<times> 'p jsdata) list" where
  "received i out = map snd (filter (\<lambda>e. fst e = i) out)"

subsection \<open>Observations used in the statements\<close>

text \<open>The mailbox of \<open>w\<close>: the array \<open>messageQueue\<close> holds for it, empty when it holds none.\<close>

definition queue_of :: "(sid \<times> 'p msg list) list \<Rightarrow> sid \<Rightarrow> 'p msg list" where
  "queue_of mq w = (case Map_get w mq of Some q \<Rightarrow> q | None \<Rightarrow> [])"

text \<open>
  What the \<open>disconnect\<close> handler emits when the closing socket was a display: one
  \<open>presentationDisconnected\<close> to each control panel whose socket is connected.
\<close>

definition notices :: "sockets \<Rightarrow> (sid \<times> meta) list \<Rightarrow> 'p emit list" where
  "notices io cp = map (\<lambda>(controlId, cdata). (controlId, ''presentationDisconnected'', IdObj controlId))
                  (filter (\<lambda>(controlId, cdata). connected io controlId) cp)"

section \<open>Properties\<close>

subsection \<open>The fan-out loop\<close>

lemma forward_out:
  "snd (fold (forward_to_window io) ws (mq, out)) =
     out @ map (\<lambda>(w, m). (w, ''presentationUpdate'', Meta m))
             (filter (\<lambda>(w, m). connected io w) ws)"
proof (induction ws arbitrary: mq out)
  case Nil
  show ?case by simp
next
  case (Cons e ws)
  obtain w m where e: "e = (w, m)" by (cases e)
  obtain mq1 out1 where st: "forward_to_window io (w, m) (mq, out) = (mq1, out1)"
    by (cases "forward_to_window io (w, m) (mq, out)")
  have o1: "out1 = (if connected io w then out @ [(w, ''presentationUpdate'', Meta m)] else out)"
    using st by (auto simp: Let_def split: if_splits option.splits)
  show ?case
    using Cons.IH [of mq1 out1] by (simp add: e st o1 del: forward_to_window.simps)
qed

lemma forward_step_queue:
  "fst (forward_to_window io (w, m) (mq, out)) =
     (if connected io w then mq
      else Map_set w (queue_of mq w @ [\<lparr>event = ''presentationUpdate'', data = Meta m\<rparr>])
             (if Map_has w mq then mq else Map_set w [] mq))"
  by (auto simp: Let_def queue_of_def Map_has_def update_conv' split: option.splits)

lemma forward_step_lookup:
  "Map_get v (fst (forward_to_window io (w, m) (mq, out))) =
     (if connected io w \<or> v \<noteq> w then Map_get v mq
      else Some (queue_of mq w @ [\<lparr>event = ''presentationUpdate'', data = Meta m\<rparr>]))"
  by (auto simp: Let_def queue_of_def Map_has_def update_conv' split: option.splits)

lemma forward_lookup:
  "Map_get v (fst (fold (forward_to_window io) ws (mq, out))) =
     (if connected io v \<or> filter (\<lambda>e. fst e = v) ws = [] then Map_get v mq
      else Some (queue_of mq v @
             map (\<lambda>e. \<lparr>event = ''presentationUpdate'', data = Meta (snd e)\<rparr>)
               (filter (\<lambda>e. fst e = v) ws)))"
proof (induction ws arbitrary: mq out)
  case Nil
  show ?case by simp
next
  case (Cons e ws)
  obtain w m where e: "e = (w, m)" by (cases e)
  obtain mq1 out1 where st: "forward_to_window io (w, m) (mq, out) = (mq1, out1)"
    by (cases "forward_to_window io (w, m) (mq, out)")
  have l1: "Map_get v mq1 =
     (if connected io w \<or> v \<noteq> w then Map_get v mq
      else Some (queue_of mq w @ [\<lparr>event = ''presentationUpdate'', data = Meta m\<rparr>]))"
    using forward_step_lookup [where v = v and io = io and w = w and m = m and mq = mq and out = out]
    by (simp add: st del: forward_to_window.simps)
  have q1: "queue_of mq1 v =
     (if connected io w \<or> v \<noteq> w then queue_of mq v
      else queue_of mq w @ [\<lparr>event = ''presentationUpdate'', data = Meta m\<rparr>])"
    by (simp add: queue_of_def l1)
  show ?case
    using Cons.IH [of mq1 out1] by (simp add: e st l1 q1 del: forward_to_window.simps)
qed

lemma filter_key_distinct:
  "distinct (map fst ws) \<Longrightarrow> (w, m) \<in> set ws \<Longrightarrow> filter (\<lambda>e. fst e = w) ws = [(w, m)]"
proof (induction ws)
  case Nil
  then show ?case by simp
next
  case (Cons e ws)
  show ?case
  proof (cases "e = (w, m)")
    case True
    have "filter (\<lambda>e. fst e = w) ws = []"
      using Cons.prems(1) True by (auto simp: filter_empty_conv image_iff)
    then show ?thesis using True by simp
  next
    case False
    then have "(w, m) \<in> set ws" using Cons.prems(2) by simp
    moreover have "fst e \<noteq> w" using Cons.prems(1) calculation by (force simp: image_iff)
    ultimately show ?thesis using Cons by simp
  qed
qed

lemma on_presentationUpdate_eq:
  "on_presentationUpdate io sender payload callback s =
     (s\<lparr>messageQueue := fst (fold (forward_to_window io) (presentationWindows s) (messageQueue s, []))\<rparr>,
      map (\<lambda>(w, m). (w, ''presentationUpdate'', Meta m))
        (filter (\<lambda>(w, m). connected io w) (presentationWindows s)),
      if callback then Some Success else None)"
proof -
  obtain mq out where f: "fold (forward_to_window io) (presentationWindows s) (messageQueue s, []) = (mq, out)"
    by (cases "fold (forward_to_window io) (presentationWindows s) (messageQueue s, [])")
  have "out = map (\<lambda>(w, m). (w, ''presentationUpdate'', Meta m))
        (filter (\<lambda>(w, m). connected io w) (presentationWindows s))"
    using forward_out [of io "presentationWindows s" "messageQueue s" "[]"] by (simp add: f)
  then show ?thesis by (simp add: on_presentationUpdate_def f)
qed

lemma received_fanout:
  "received v (map (\<lambda>(w, m). (w, ''presentationUpdate'', Meta m))
        (filter (\<lambda>(w, m). connected io w) ws)) =
   (if connected io v
    then map (\<lambda>e. (''presentationUpdate'', Meta (snd e))) (filter (\<lambda>e. fst e = v) ws)
    else [])"
  by (induction ws) (auto simp: received_def)

subsection \<open>Forwarding the payload\<close>

text \<open>
  C1 (the payload of a \<open>presentationUpdate\<close> reaches every connected display unchanged, and
  the mailbox entry of a disconnected display carries it too). The code does not do this:
  in the fan-out loop the name \<open>data\<close> is the loop's own parameter, the entry
  \<open>{ connectedAt, lastHeartbeat }\<close> of \<open>presentationWindows\<close>. In the scenario of the
  specification (control \<open>c\<close> and display \<open>d\<close> registered, \<open>c\<close> sends
  \<open>{song:S1,segment:Seg1}\<close>) the display receives its own registry entry; when the display's
  socket is not in the table, that same entry is what the mailbox gets.
\<close>

theorem presentationUpdate_sends_registry_entry:
  "received ''d''
     (sent (run [Connect ''c'' 0, Connect ''d'' 1, RegisterControl ''c'' 2 ''null'' True,
                 RegisterPresentation ''d'' 3 ''null'' True,
                 PresentationUpdate ''c'' ''{song:S1,segment:Seg1}'' True] start)) =
     [(''presentationUpdate'', Meta \<lparr>connectedAt = 3, lastHeartbeat = 3\<rparr>)] \<and>
   messageQueue
     (fst (on_presentationUpdate Map.empty ''c'' ''{song:S1,segment:Seg1}'' True
        \<lparr>presentationWindows = [(''d'', \<lparr>connectedAt = 3, lastHeartbeat = 3\<rparr>)],
         controlPanels = [(''c'', \<lparr>connectedAt = 2, lastHeartbeat = 2\<rparr>)],
         messageQueue = [], heartbeats = [(''c'', 0)]\<rparr>)) =
     [(''d'', [\<lparr>event = ''presentationUpdate'',
               data = Meta \<lparr>connectedAt = 3, lastHeartbeat = 3\<rparr>\<rparr>])]"
  by code_simp

subsection \<open>Roles\<close>



subsection \<open>Registration\<close>

text \<open>
  C9 as stated (a malformed or duplicate registration is answered with \<open>{ error }\<close> and
  leaves the connection without a role) fails: \<open>d\<close> registers as display twice, the second
  time with other data; both callbacks get \<open>{ success: true }\<close> and \<open>d\<close> is a display.
\<close>

theorem duplicate_registration_succeeds:
  "acks (run [Connect ''d'' 0, RegisterPresentation ''d'' 1 ''null'' True,
              RegisterPresentation ''d'' 2 ''malformed'' True] start) =
     [(''d'', Success), (''d'', Success)] \<and>
   presentationWindows (server
     (run [Connect ''d'' 0, RegisterPresentation ''d'' 1 ''null'' True,
           RegisterPresentation ''d'' 2 ''malformed'' True] start)) =
     [(''d'', \<lparr>connectedAt = 2, lastHeartbeat = 2\<rparr>)]"
  by code_simp

text \<open>
  C9 as amended: the registration handlers examine neither the data sent with the message
  nor an earlier registration. Every \<open>registerPresentation\<close> and every \<open>registerControl\<close>,
  whatever its data and whatever the state, enters the identifier in the role's map with a
  fresh entry, and the callback gets \<open>{ success: true }\<close>.
\<close>

theorem registration_always_succeeds:
  "snd (snd (on_registerPresentation io i now regdata True s)) = Some Success \<and>
   Map_get i (presentationWindows (fst (on_registerPresentation io i now regdata callback s))) =
     Some \<lparr>connectedAt = now, lastHeartbeat = now\<rparr> \<and>
   snd (snd (on_registerControl i now regdata True s)) = Some Success \<and>
   Map_get i (controlPanels (fst (on_registerControl i now regdata callback s))) =
     Some \<lparr>connectedAt = now, lastHeartbeat = now\<rparr>"
  by (simp add: on_registerPresentation_def on_registerControl_def update_conv')

subsection \<open>Fan-out\<close>

text \<open>
  C6: one \<open>presentationUpdate\<close> handles each registered display on its own. A display whose
  socket is connected is written exactly one \<open>presentationUpdate\<close> event and its mailbox is
  untouched; one whose socket is not connected is written nothing and its mailbox grows by
  exactly one \<open>presentationUpdate\<close> entry at the end. Only displays are written to, and the
  callback, when there is one, gets \<open>{ success: true }\<close> however many deliveries were
  queued. The keys of a Map are distinct.
\<close>

theorem presentationUpdate_fanout:
  assumes "distinct (map fst (presentationWindows s))"
    and "on_presentationUpdate io sender payload callback s = (s', out, a)"
  shows "a = (if callback then Some Success else None) \<and>
    (\<forall>w \<in> keys (presentationWindows s).
       (connected io w \<longrightarrow>
          (\<exists>d. received w out = [(''presentationUpdate'', d)]) \<and>
          Map_get w (messageQueue s') = Map_get w (messageQueue s)) \<and>
       (\<not> connected io w \<longrightarrow>
          received w out = [] \<and>
          (\<exists>d. Map_get w (messageQueue s') =
             Some (queue_of (messageQueue s) w @ [\<lparr>event = ''presentationUpdate'', data = d\<rparr>])))) \<and>
    (\<forall>e \<in> set out. fst e \<in> keys (presentationWindows s)) \<and>
    presentationWindows s' = presentationWindows s"
proof -
  let ?ws = "presentationWindows s"
  let ?f = "fold (forward_to_window io) ?ws (messageQueue s, [])"
  from assms(2) have s': "s' = s\<lparr>messageQueue := fst ?f\<rparr>"
    and out: "out = map (\<lambda>(w, m). (w, ''presentationUpdate'', Meta m))
        (filter (\<lambda>(w, m). connected io w) ?ws)"
    and a: "a = (if callback then Some Success else None)"
    by (simp_all add: on_presentationUpdate_eq)
  have each: "(connected io w \<longrightarrow>
          (\<exists>d. received w out = [(''presentationUpdate'', d)]) \<and>
          Map_get w (messageQueue s') = Map_get w (messageQueue s)) \<and>
       (\<not> connected io w \<longrightarrow>
          received w out = [] \<and>
          (\<exists>d. Map_get w (messageQueue s') =
             Some (queue_of (messageQueue s) w @ [\<lparr>event = ''presentationUpdate'', data = d\<rparr>])))"
    if w: "w \<in> keys ?ws" for w
  proof -
    from w obtain m where m: "(w, m) \<in> set ?ws" by (auto simp: keys_def)
    have fl: "filter (\<lambda>e. fst e = w) ?ws = [(w, m)]"
      using filter_key_distinct [OF assms(1) m] .
    have r: "received w out = (if connected io w then [(''presentationUpdate'', Meta m)] else [])"
      by (simp add: out received_fanout fl)
    have q: "Map_get w (messageQueue s') =
       (if connected io w then Map_get w (messageQueue s)
        else Some (queue_of (messageQueue s) w @ [\<lparr>event = ''presentationUpdate'', data = Meta m\<rparr>]))"
      by (simp add: s' forward_lookup fl)
    show ?thesis by (simp add: r q)
  qed
  have tgt: "\<forall>e \<in> set out. fst e \<in> keys ?ws"
    by (force simp: out keys_def)
  show ?thesis using a each tgt by (simp add: s')
qed

text \<open>
  The scenario of the specification: displays \<open>A\<close> and \<open>B\<close>, \<open>A\<close>'s socket not in the
  table. One broadcast queues for \<open>A\<close> and writes to \<open>B\<close>.
\<close>

theorem presentationUpdate_fanout_witness:
  "distinct (map fst [(''A'', \<lparr>connectedAt = 1, lastHeartbeat = 1\<rparr>),
                      (''B'', \<lparr>connectedAt = 2, lastHeartbeat = 2\<rparr>)]) \<and>
   (\<exists>s' out d d'.
      on_presentationUpdate [''B'' \<mapsto> True, ''c'' \<mapsto> True] ''c'' ''{segment:Seg1}'' True
        \<lparr>presentationWindows = [(''A'', \<lparr>connectedAt = 1, lastHeartbeat = 1\<rparr>),
                                 (''B'', \<lparr>connectedAt = 2, lastHeartbeat = 2\<rparr>)],
         controlPanels = [(''c'', \<lparr>connectedAt = 0, lastHeartbeat = 0\<rparr>)],
         messageQueue = [], heartbeats = [(''c'', 0), (''B'', 2)]\<rparr> = (s', out, Some Success) \<and>
      received ''B'' out = [(''presentationUpdate'', d)] \<and>
      received ''A'' out = [] \<and>
      Map_get ''A'' (messageQueue s') = Some [\<lparr>event = ''presentationUpdate'', data = d'\<rparr>] \<and>
      Map_get ''B'' (messageQueue s') = None)"
proof -
  let ?s = "\<lparr>presentationWindows = [(''A'', \<lparr>connectedAt = 1, lastHeartbeat = 1\<rparr>),
                                    (''B'', \<lparr>connectedAt = 2, lastHeartbeat = 2\<rparr>)],
            controlPanels = [(''c'', \<lparr>connectedAt = 0, lastHeartbeat = 0\<rparr>)],
            messageQueue = ([] :: (sid \<times> string msg list) list),
            heartbeats = [(''c'', 0), (''B'', 2)]\<rparr>"
  let ?io = "[''B'' \<mapsto> True, ''c'' \<mapsto> True] :: sockets"
  obtain s' out a where r: "on_presentationUpdate ?io ''c'' ''{segment:Seg1}'' True ?s = (s', out, a)"
    by (cases "on_presentationUpdate ?io ''c'' ''{segment:Seg1}'' True ?s")
  have d: "distinct (map fst (presentationWindows ?s))" by simp
  have A: "''A'' \<in> keys (presentationWindows ?s)" and B: "''B'' \<in> keys (presentationWindows ?s)"
    by (simp_all add: keys_def)
  have cA: "\<not> connected ?io ''A''" and cB: "connected ?io ''B''"
    by (simp_all add: connected_def)
  from presentationUpdate_fanout [OF d r] A B cA cB
  have "a = Some Success"
    and "\<exists>d. received ''B'' out = [(''presentationUpdate'', d)]"
    and "Map_get ''B'' (messageQueue s') = None"
    and "received ''A'' out = []"
    and "\<exists>d. Map_get ''A'' (messageQueue s') = Some [\<lparr>event = ''presentationUpdate'', data = d\<rparr>]"
    by (auto simp: queue_of_def)
  with r show ?thesis by auto
qed

subsection \<open>The sender of an update\<close>

lemma fanout_per_display:
  assumes "distinct (map fst (presentationWindows s))"
    and "w \<in> keys (presentationWindows s)"
  shows "(connected io w \<longrightarrow>
          (\<exists>d. received w (fst (snd (on_presentationUpdate io sender payload callback s))) =
             [(''presentationUpdate'', d)]) \<and>
          Map_get w (messageQueue (fst (on_presentationUpdate io sender payload callback s))) =
            Map_get w (messageQueue s)) \<and>
       (\<not> connected io w \<longrightarrow>
          received w (fst (snd (on_presentationUpdate io sender payload callback s))) = [] \<and>
          (\<exists>d. Map_get w (messageQueue (fst (on_presentationUpdate io sender payload callback s))) =
             Some (queue_of (messageQueue s) w @ [\<lparr>event = ''presentationUpdate'', data = d\<rparr>])))"
proof -
  from assms(2) obtain m where m: "(w, m) \<in> set (presentationWindows s)"
    by (auto simp: keys_def)
  have fl: "filter (\<lambda>e. fst e = w) (presentationWindows s) = [(w, m)]"
    using filter_key_distinct [OF assms(1) m] .
  show ?thesis
    by (simp add: on_presentationUpdate_eq received_fanout forward_lookup fl)
qed

text \<open>
  C10: the \<open>presentationUpdate\<close> handler makes no check of the sender's role. Whoever the
  sender is (a control panel, a display, or a socket that never registered), the handler
  does what it does for any other sender: its result does not depend on the sender's
  identifier nor on \<open>controlPanels\<close>, the callback gets \<open>{ success: true }\<close>, and the
  fan-out takes place: every registered display whose socket is connected is written exactly
  one \<open>presentationUpdate\<close> and every other registered display gets exactly one
  \<open>presentationUpdate\<close> entry at the end of its mailbox (the keys of a Map being distinct).
\<close>

theorem presentationUpdate_ignores_sender:
  "on_presentationUpdate io sender payload callback s =
     on_presentationUpdate io sender' payload callback s \<and>
   snd (snd (on_presentationUpdate io sender payload True s)) = Some Success \<and>
   snd (on_presentationUpdate io sender payload callback (s\<lparr>controlPanels := cp\<rparr>)) =
     snd (on_presentationUpdate io sender payload callback s) \<and>
   (distinct (map fst (presentationWindows s)) \<longrightarrow>
      (\<forall>w \<in> keys (presentationWindows s).
         (connected io w \<longrightarrow>
            (\<exists>d. received w (fst (snd (on_presentationUpdate io sender payload callback s))) =
               [(''presentationUpdate'', d)]) \<and>
            Map_get w (messageQueue (fst (on_presentationUpdate io sender payload callback s))) =
              Map_get w (messageQueue s)) \<and>
         (\<not> connected io w \<longrightarrow>
            received w (fst (snd (on_presentationUpdate io sender payload callback s))) = [] \<and>
            (\<exists>d. Map_get w (messageQueue (fst (on_presentationUpdate io sender payload callback s))) =
               Some (queue_of (messageQueue s) w @
                 [\<lparr>event = ''presentationUpdate'', data = d\<rparr>])))))"
proof -
  have indep: "on_presentationUpdate io sender payload callback s =
     on_presentationUpdate io sender' payload callback s \<and>
   snd (snd (on_presentationUpdate io sender payload True s)) = Some Success \<and>
   snd (on_presentationUpdate io sender payload callback (s\<lparr>controlPanels := cp\<rparr>)) =
     snd (on_presentationUpdate io sender payload callback s)"
    by (simp add: on_presentationUpdate_eq)
  show ?thesis
    using indep fanout_per_display [of s _ io sender payload callback] by blast
qed

text \<open>
  Display \<open>d\<close> connected, display \<open>a\<close> registered with no socket, control \<open>c\<close>, and \<open>u\<close>
  connected but never registered. An update sent by \<open>u\<close>, or by the display \<open>d\<close>, does
  what one sent by \<open>c\<close> does: \<open>d\<close> is written the event and \<open>a\<close> gets a mailbox entry.
\<close>

theorem presentationUpdate_ignores_sender_witness:
  "distinct (map fst [(''d'', \<lparr>connectedAt = 3, lastHeartbeat = 3\<rparr>),
                      (''a'', \<lparr>connectedAt = 4, lastHeartbeat = 4\<rparr>)]) \<and>
   (\<exists>s' out x x'.
      on_presentationUpdate [''c'' \<mapsto> True, ''d'' \<mapsto> True, ''u'' \<mapsto> True] ''u'' ''{song:S1}'' True
        \<lparr>presentationWindows = [(''d'', \<lparr>connectedAt = 3, lastHeartbeat = 3\<rparr>),
                                 (''a'', \<lparr>connectedAt = 4, lastHeartbeat = 4\<rparr>)],
         controlPanels = [(''c'', \<lparr>connectedAt = 2, lastHeartbeat = 2\<rparr>)],
         messageQueue = [], heartbeats = [(''c'', 0), (''d'', 1), (''u'', 5)]\<rparr> =
        (s', out, Some Success) \<and>
      on_presentationUpdate [''c'' \<mapsto> True, ''d'' \<mapsto> True, ''u'' \<mapsto> True] ''c'' ''{song:S1}'' True
        \<lparr>presentationWindows = [(''d'', \<lparr>connectedAt = 3, lastHeartbeat = 3\<rparr>),
                                 (''a'', \<lparr>connectedAt = 4, lastHeartbeat = 4\<rparr>)],
         controlPanels = [(''c'', \<lparr>connectedAt = 2, lastHeartbeat = 2\<rparr>)],
         messageQueue = [], heartbeats = [(''c'', 0), (''d'', 1), (''u'', 5)]\<rparr> =
        (s', out, Some Success) \<and>
      on_presentationUpdate [''c'' \<mapsto> True, ''d'' \<mapsto> True, ''u'' \<mapsto> True] ''d'' ''{song:S1}'' True
        \<lparr>presentationWindows = [(''d'', \<lparr>connectedAt = 3, lastHeartbeat = 3\<rparr>),
                                 (''a'', \<lparr>connectedAt = 4, lastHeartbeat = 4\<rparr>)],
         controlPanels = [(''c'', \<lparr>connectedAt = 2, lastHeartbeat = 2\<rparr>)],
         messageQueue = [], heartbeats = [(''c'', 0), (''d'', 1), (''u'', 5)]\<rparr> =
        (s', out, Some Success) \<and>
      received ''d'' out = [(''presentationUpdate'', x)] \<and>
      received ''a'' out = [] \<and>
      Map_get ''a'' (messageQueue s') = Some [\<lparr>event = ''presentationUpdate'', data = x'\<rparr>])"
proof -
  let ?s = "\<lparr>presentationWindows = [(''d'', \<lparr>connectedAt = 3, lastHeartbeat = 3\<rparr>),
                                    (''a'', \<lparr>connectedAt = 4, lastHeartbeat = 4\<rparr>)],
            controlPanels = [(''c'', \<lparr>connectedAt = 2, lastHeartbeat = 2\<rparr>)],
            messageQueue = ([] :: (sid \<times> string msg list) list),
            heartbeats = [(''c'', 0), (''d'', 1), (''u'', 5)]\<rparr>"
  let ?io = "[''c'' \<mapsto> True, ''d'' \<mapsto> True, ''u'' \<mapsto> True] :: sockets"
  let ?r = "on_presentationUpdate ?io ''u'' ''{song:S1}'' True ?s"
  have h: "distinct (map fst (presentationWindows ?s))" by simp
  have k: "''d'' \<in> keys (presentationWindows ?s)" "''a'' \<in> keys (presentationWindows ?s)"
    by (simp_all add: keys_def)
  have cn: "connected ?io ''d''" "\<not> connected ?io ''a''" by (simp_all add: connected_def)
  note thc = presentationUpdate_ignores_sender
    [where io = ?io and sender = "''u''" and sender' = "''c''" and payload = "''{song:S1}''"
       and callback = True and s = ?s]
  note thd = presentationUpdate_ignores_sender
    [where io = ?io and sender = "''u''" and sender' = "''d''" and payload = "''{song:S1}''"
       and callback = True and s = ?s]
  have e1: "?r = on_presentationUpdate ?io ''c'' ''{song:S1}'' True ?s"
    by (rule thc [THEN conjunct1])
  have e2: "?r = on_presentationUpdate ?io ''d'' ''{song:S1}'' True ?s"
    by (rule thd [THEN conjunct1])
  have a: "snd (snd ?r) = Some Success"
    by (rule thc [THEN conjunct2, THEN conjunct1])
  note fan = thc [THEN conjunct2, THEN conjunct2, THEN conjunct2, THEN mp, OF h]
  have d: "\<exists>x. received ''d'' (fst (snd ?r)) = [(''presentationUpdate'', x)]"
    using fan [THEN bspec, OF k(1), THEN conjunct1, THEN mp, OF cn(1)] by (rule conjunct1)
  note un = fan [THEN bspec, OF k(2), THEN conjunct2, THEN mp, OF cn(2)]
  have q0: "queue_of (messageQueue ?s) ''a'' = []" by (simp add: queue_of_def)
  have q1: "received ''a'' (fst (snd ?r)) = []" using un by (rule conjunct1)
  have q2: "\<exists>x. Map_get ''a'' (messageQueue (fst ?r)) =
        Some [\<lparr>event = ''presentationUpdate'', data = x\<rparr>]"
    using un [THEN conjunct2] by (simp only: q0 append_Nil)
  obtain s' out b where r: "?r = (s', out, b)" by (cases ?r)
  have b: "b = Some Success" using a by (simp only: r snd_conv)
  from d obtain x where x: "received ''d'' out = [(''presentationUpdate'', x)]"
    by (auto simp only: r fst_conv snd_conv)
  from q2 obtain x' where x': "Map_get ''a'' (messageQueue s') =
        Some [\<lparr>event = ''presentationUpdate'', data = x'\<rparr>]"
    by (auto simp only: r fst_conv)
  have q1': "received ''a'' out = []" using q1 by (simp only: r fst_conv snd_conv)
  have r1: "on_presentationUpdate ?io ''u'' ''{song:S1}'' True ?s = (s', out, Some Success)"
    using r b by simp
  have r2: "on_presentationUpdate ?io ''c'' ''{song:S1}'' True ?s = (s', out, Some Success)"
    using e1 r1 by simp
  have r3: "on_presentationUpdate ?io ''d'' ''{song:S1}'' True ?s = (s', out, Some Success)"
    using e2 r1 by simp
  have h': "distinct (map fst [(''d'', \<lparr>connectedAt = 3, lastHeartbeat = 3\<rparr>),
                      (''a'', \<lparr>connectedAt = 4, lastHeartbeat = 4\<rparr>)])" by simp
  show ?thesis
    using h' r1 r2 r3 x q1' x' by blast
qed

subsection \<open>Order of delivery\<close>

text \<open>
  The handler's result does not depend on the payload it is given: the general form of
  what C1 and C7 meet.
\<close>

lemma presentationUpdate_ignores_payload:
  "on_presentationUpdate io sender payload callback s =
     on_presentationUpdate io sender payload' callback s"
  by (simp add: on_presentationUpdate_eq)

text \<open>
  C7 (while a display stays connected and registered it receives exactly the updates
  issued, in the order issued). The display is written one \<open>presentationUpdate\<close> event
  per update, in the order of the updates, but none of them carries the update: each
  carries the display's registry entry, as in C1. Three different updates arrive as three
  identical events.
\<close>

theorem connected_display_gets_registry_entries:
  "received ''d''
     (sent (run [Connect ''c'' 0, Connect ''d'' 1, RegisterControl ''c'' 2 ''null'' True,
                 RegisterPresentation ''d'' 3 ''null'' True,
                 PresentationUpdate ''c'' ''{song:S1}'' True,
                 PresentationUpdate ''c'' ''{segment:Seg1}'' True,
                 PresentationUpdate ''c'' ''{segment:Seg2}'' True] start)) =
     [(''presentationUpdate'', Meta \<lparr>connectedAt = 3, lastHeartbeat = 3\<rparr>),
      (''presentationUpdate'', Meta \<lparr>connectedAt = 3, lastHeartbeat = 3\<rparr>),
      (''presentationUpdate'', Meta \<lparr>connectedAt = 3, lastHeartbeat = 3\<rparr>)]"
  by code_simp

subsection \<open>Departure of a display\<close>

text \<open>
  C5 (when a display closes, every connected control receives \<open>presentationDisconnected\<close>
  whose \<open>id\<close> is the display's identifier). The control is notified, but the \<open>id\<close> is
  the control's own: display \<open>d\<close> closes and control \<open>c\<close> receives \<open>{ id: c }\<close>, where
  the arrival of \<open>d\<close> had been announced with \<open>{ id: d }\<close>.
\<close>

theorem disconnect_notice_names_the_control:
  "received ''c''
     (sent (run [Connect ''c'' 0, Connect ''d'' 1, RegisterControl ''c'' 2 ''null'' True,
                 RegisterPresentation ''d'' 3 ''null'' True, Disconnect ''d''] start)) =
     [(''presentationConnected'', IdObj ''d''), (''presentationDisconnected'', IdObj ''c'')]"
  by code_simp

subsection \<open>Heartbeats and the stale sweep\<close>

text \<open>
  A ping stamps \<open>heartbeats\<close> and leaves both role maps alone; an entry of \<open>heartbeats\<close>
  within the timeout is skipped by the heartbeat check; the stale sweep never reads
  \<open>heartbeats\<close>.
\<close>

lemma ping_stamps_heartbeats_only:
  "Map_get i (heartbeats (fst (on_ping i now s))) = Some now \<and>
   presentationWindows (fst (on_ping i now s)) = presentationWindows s \<and>
   controlPanels (fst (on_ping i now s)) = controlPanels s"
  by (simp add: on_ping_def update_conv')

lemma heartbeat_entry_fresh:
  "now - lastBeat \<le> HEARTBEAT_TIMEOUT \<Longrightarrow>
   heartbeat_entry now (i, lastBeat) (io, s, out) = (io, s, out)"
  by simp

lemma stale_cleanup_ignores_heartbeats:
  "stale_cleanup now (s\<lparr>heartbeats := hb\<rparr>) = (stale_cleanup now s)\<lparr>heartbeats := hb\<rparr>"
  by (simp add: stale_cleanup_def Let_def)

text \<open>
  C4 (a ping refreshes the timestamp eviction is measured against, so a connection that
  pings within every timeout window is neither evicted by the heartbeat check nor reclaimed
  by the stale sweep). A ping writes \<open>heartbeats\<close> only; the \<open>lastHeartbeat\<close> of the role
  maps keeps the time of registration. Display \<open>d\<close> registers at 0 and pings every 50
  seconds: the heartbeat checks leave it alone and its last beat is 300000, yet the stale
  sweep at 300001 removes it from \<open>presentationWindows\<close> while its socket is connected.
\<close>

theorem pinging_display_is_reclaimed:
  "Map_get ''d'' (heartbeats (server
      (run [Connect ''d'' 0, RegisterPresentation ''d'' 0 ''null'' True,
            Ping ''d'' 50000, HeartbeatCheck 60000, StaleCleanup 60000,
            Ping ''d'' 100000, HeartbeatCheck 120000, StaleCleanup 120000,
            Ping ''d'' 150000, HeartbeatCheck 180000, StaleCleanup 180000,
            Ping ''d'' 200000, HeartbeatCheck 240000, StaleCleanup 240000,
            Ping ''d'' 250000, Ping ''d'' 300000, HeartbeatCheck 300000,
            StaleCleanup 300000] start))) = Some 300000 \<and>
   presentationWindows (server
      (run [Connect ''d'' 0, RegisterPresentation ''d'' 0 ''null'' True,
            Ping ''d'' 50000, HeartbeatCheck 60000, StaleCleanup 60000,
            Ping ''d'' 100000, HeartbeatCheck 120000, StaleCleanup 120000,
            Ping ''d'' 150000, HeartbeatCheck 180000, StaleCleanup 180000,
            Ping ''d'' 200000, HeartbeatCheck 240000, StaleCleanup 240000,
            Ping ''d'' 250000, Ping ''d'' 300000, HeartbeatCheck 300000,
            StaleCleanup 300000] start)) = [(''d'', \<lparr>connectedAt = 0, lastHeartbeat = 0\<rparr>)] \<and>
   presentationWindows (server
      (run [Connect ''d'' 0, RegisterPresentation ''d'' 0 ''null'' True,
            Ping ''d'' 50000, HeartbeatCheck 60000, StaleCleanup 60000,
            Ping ''d'' 100000, HeartbeatCheck 120000, StaleCleanup 120000,
            Ping ''d'' 150000, HeartbeatCheck 180000, StaleCleanup 180000,
            Ping ''d'' 200000, HeartbeatCheck 240000, StaleCleanup 240000,
            Ping ''d'' 250000, Ping ''d'' 300000, HeartbeatCheck 300000,
            StaleCleanup 300000, StaleCleanup 300001] start)) = [] \<and>
   connected (sockets
      (run [Connect ''d'' 0, RegisterPresentation ''d'' 0 ''null'' True,
            Ping ''d'' 50000, HeartbeatCheck 60000, StaleCleanup 60000,
            Ping ''d'' 100000, HeartbeatCheck 120000, StaleCleanup 120000,
            Ping ''d'' 150000, HeartbeatCheck 180000, StaleCleanup 180000,
            Ping ''d'' 200000, HeartbeatCheck 240000, StaleCleanup 240000,
            Ping ''d'' 250000, Ping ''d'' 300000, HeartbeatCheck 300000,
            StaleCleanup 300000, StaleCleanup 300001] start)) ''d''"
  by code_simp

subsection \<open>Eviction by the heartbeat check\<close>

lemma on_disconnect_eq:
  "on_disconnect io i s =
     (s\<lparr>presentationWindows := Map_delete i (presentationWindows s),
        controlPanels := Map_delete i (controlPanels s),
        messageQueue := Map_delete i (messageQueue s),
        heartbeats := Map_delete i (heartbeats s)\<rparr>,
      if Map_has i (presentationWindows s) then notices io (controlPanels s) else [])"
proof (cases "Map_has i (presentationWindows s)")
  case True
  then show ?thesis by (simp add: on_disconnect_def notices_def)
next
  case False
  then have "i \<notin> fst ` set (presentationWindows s)"
    by (simp add: Map_has_def map_of_eq_None_iff)
  then have "Map_delete i (presentationWindows s) = presentationWindows s" by simp
  then show ?thesis using False by (simp add: on_disconnect_def)
qed

lemma heartbeat_entry_eq:
  "heartbeat_entry now (i, lastBeat) (io, s, out) =
     (if now - lastBeat > HEARTBEAT_TIMEOUT then
        if connected io i then
          (io(i := None),
           s\<lparr>presentationWindows := Map_delete i (presentationWindows s),
             controlPanels := Map_delete i (controlPanels s),
             messageQueue := Map_delete i (messageQueue s),
             heartbeats := Map_delete i (heartbeats s)\<rparr>,
           out @ (if Map_has i (presentationWindows s)
                  then notices (io(i := None)) (controlPanels s) else []))
        else (io, s\<lparr>heartbeats := Map_delete i (heartbeats s)\<rparr>, out)
      else (io, s, out))"
  by (auto simp: socket_disconnect_def on_disconnect_eq delete_idem Let_def connected_def)


declare heartbeat_entry.simps [simp del]

lemma notices_set:
  "x \<in> set (notices io cp) \<longleftrightarrow>
     (\<exists>c \<in> keys cp. connected io c \<and> x = (c, ''presentationDisconnected'', IdObj c))"
  by (force simp: notices_def keys_def)

lemma keys_delete: "keys (Map_delete j m) \<subseteq> keys m"
  by (simp add: keys_def dom_delete_subset)

lemma entry_frame:
  assumes "heartbeat_entry now (j, lb) (io, s, out) = (io1, s1, out1)" and "k \<noteq> j"
  shows "io1 k = io k \<and>
         Map_get k (presentationWindows s1) = Map_get k (presentationWindows s) \<and>
         Map_get k (controlPanels s1) = Map_get k (controlPanels s)"
  using assms by (auto simp: heartbeat_entry_eq delete_conv' split: if_splits)

lemma entry_mono:
  assumes "heartbeat_entry now (j, lb) (io, s, out) = (io1, s1, out1)"
  shows "(io k = None \<longrightarrow> io1 k = None) \<and>
         (Map_get k (presentationWindows s) = None \<longrightarrow> Map_get k (presentationWindows s1) = None) \<and>
         (Map_get k (controlPanels s) = None \<longrightarrow> Map_get k (controlPanels s1) = None) \<and>
         (Map_get k (messageQueue s) = None \<longrightarrow> Map_get k (messageQueue s1) = None) \<and>
         (Map_get k (heartbeats s) = None \<longrightarrow> Map_get k (heartbeats s1) = None)"
  using assms by (auto simp: heartbeat_entry_eq delete_conv' split: if_splits)

lemma entry_control_kept:
  assumes "heartbeat_entry now (j, lb) (io, s, out) = (io1, s1, out1)"
  shows "io1 k = None \<or> (io1 k = io k \<and> Map_get k (controlPanels s1) = Map_get k (controlPanels s))"
  using assms by (auto simp: heartbeat_entry_eq delete_conv' split: if_splits)

lemma entry_out:
  assumes "heartbeat_entry now (j, lb) (io, s, out) = (io1, s1, out1)"
  shows "\<exists>new. out1 = out @ new \<and>
           (\<forall>x \<in> set new. fst (snd x) = ''presentationDisconnected'' \<and> fst x \<in> keys (controlPanels s))"
    and "keys (controlPanels s1) \<subseteq> keys (controlPanels s)"
  using assms keys_delete [of j "controlPanels s"]
  by (auto simp: heartbeat_entry_eq notices_set split: if_splits)

lemma sweep_frame:
  assumes "fold (heartbeat_entry now) es (io, s, out) = (io', s', out')" and "k \<notin> fst ` set es"
  shows "io' k = io k \<and>
         Map_get k (presentationWindows s') = Map_get k (presentationWindows s) \<and>
         Map_get k (controlPanels s') = Map_get k (controlPanels s)"
  using assms
proof (induction es arbitrary: io s out)
  case Nil
  then show ?case by simp
next
  case (Cons e es)
  obtain j lb where e: "e = (j, lb)" by (cases e)
  obtain io1 s1 out1 where st: "heartbeat_entry now (j, lb) (io, s, out) = (io1, s1, out1)"
    by (cases "heartbeat_entry now (j, lb) (io, s, out)")
  have kj: "k \<noteq> j" and kes: "k \<notin> fst ` set es" using Cons.prems(2) e by auto
  have r: "fold (heartbeat_entry now) es (io1, s1, out1) = (io', s', out')"
    using Cons.prems(1) by (simp add: e st)
  show ?case
    using Cons.IH [OF r kes] entry_frame [OF st kj] by simp
qed

lemma sweep_mono:
  assumes "fold (heartbeat_entry now) es (io, s, out) = (io', s', out')"
  shows "(io k = None \<longrightarrow> io' k = None) \<and>
         (Map_get k (presentationWindows s) = None \<longrightarrow> Map_get k (presentationWindows s') = None) \<and>
         (Map_get k (controlPanels s) = None \<longrightarrow> Map_get k (controlPanels s') = None) \<and>
         (Map_get k (messageQueue s) = None \<longrightarrow> Map_get k (messageQueue s') = None) \<and>
         (Map_get k (heartbeats s) = None \<longrightarrow> Map_get k (heartbeats s') = None)"
  using assms
proof (induction es arbitrary: io s out)
  case Nil
  then show ?case by simp
next
  case (Cons e es)
  obtain j lb where e: "e = (j, lb)" by (cases e)
  obtain io1 s1 out1 where st: "heartbeat_entry now (j, lb) (io, s, out) = (io1, s1, out1)"
    by (cases "heartbeat_entry now (j, lb) (io, s, out)")
  have r: "fold (heartbeat_entry now) es (io1, s1, out1) = (io', s', out')"
    using Cons.prems(1) by (simp add: e st)
  show ?case
    using Cons.IH [OF r] entry_mono [OF st, of k] by simp
qed

lemma sweep_control_kept:
  assumes "fold (heartbeat_entry now) es (io, s, out) = (io', s', out')"
  shows "io' k = None \<or> (io' k = io k \<and> Map_get k (controlPanels s') = Map_get k (controlPanels s))"
  using assms
proof (induction es arbitrary: io s out)
  case Nil
  then show ?case by simp
next
  case (Cons e es)
  obtain j lb where e: "e = (j, lb)" by (cases e)
  obtain io1 s1 out1 where st: "heartbeat_entry now (j, lb) (io, s, out) = (io1, s1, out1)"
    by (cases "heartbeat_entry now (j, lb) (io, s, out)")
  have r: "fold (heartbeat_entry now) es (io1, s1, out1) = (io', s', out')"
    using Cons.prems(1) by (simp add: e st)
  show ?case
    using Cons.IH [OF r] entry_control_kept [OF st, of k] sweep_mono [OF r, of k] by auto
qed

lemma sweep_out:
  assumes "fold (heartbeat_entry now) es (io, s, out) = (io', s', out')"
  shows "(\<exists>new. out' = out @ new \<and>
           (\<forall>x \<in> set new. fst (snd x) = ''presentationDisconnected'' \<and> fst x \<in> keys (controlPanels s))) \<and>
         keys (controlPanels s') \<subseteq> keys (controlPanels s)"
  using assms
proof (induction es arbitrary: io s out)
  case Nil
  then show ?case by simp
next
  case (Cons e es)
  obtain j lb where e: "e = (j, lb)" by (cases e)
  obtain io1 s1 out1 where st: "heartbeat_entry now (j, lb) (io, s, out) = (io1, s1, out1)"
    by (cases "heartbeat_entry now (j, lb) (io, s, out)")
  have r: "fold (heartbeat_entry now) es (io1, s1, out1) = (io', s', out')"
    using Cons.prems(1) by (simp add: e st)
  from entry_out [OF st] obtain new1 where
    n1: "out1 = out @ new1"
      "\<forall>x \<in> set new1. fst (snd x) = ''presentationDisconnected'' \<and> fst x \<in> keys (controlPanels s)"
    and k1: "keys (controlPanels s1) \<subseteq> keys (controlPanels s)" by blast
  from Cons.IH [OF r] obtain new2 where
    n2: "out' = out1 @ new2"
      "\<forall>x \<in> set new2. fst (snd x) = ''presentationDisconnected'' \<and> fst x \<in> keys (controlPanels s1)"
    and k2: "keys (controlPanels s') \<subseteq> keys (controlPanels s1)" by blast
  have "out' = out @ (new1 @ new2)" using n1(1) n2(1) by simp
  moreover have "\<forall>x \<in> set (new1 @ new2).
      fst (snd x) = ''presentationDisconnected'' \<and> fst x \<in> keys (controlPanels s)"
    using n1(2) n2(2) k1 by auto
  ultimately show ?case using k1 k2 by blast
qed


lemma keys_map_of: "k \<in> keys m \<longleftrightarrow> Map_get k m \<noteq> None"
  by (simp add: keys_def map_of_eq_None_iff)

lemma received_member: "(c, ev, d) \<in> set out \<Longrightarrow> (ev, d) \<in> set (received c out)"
  by (force simp: received_def)

text \<open>
  C8: the heartbeat check evicts every connection whose last beat is older than the timeout.
  Let \<open>i\<close> be such an entry of \<open>heartbeats\<close> with a connected socket, and let the check
  have reached it with the sockets \<open>io1\<close> and the state \<open>s1\<close>. After the check \<open>i\<close> has
  no socket and no entry in \<open>presentationWindows\<close>, \<open>controlPanels\<close>, \<open>messageQueue\<close> or
  \<open>heartbeats\<close>. If \<open>i\<close> was a display, every control panel registered and connected at
  the moment of the eviction (other than \<open>i\<close> itself) is written a
  \<open>presentationDisconnected\<close>, and so in particular is every control panel still connected
  after the check. Nothing but \<open>presentationDisconnected\<close> is written during the check,
  and only to control panels. The eviction of \<open>i\<close> itself is what writes them: the check
  goes on from the sockets without \<open>i\<close>, the state without the entries of \<open>i\<close>, and the
  output so far followed, when \<open>i\<close> was a display, by one notice for each control panel
  connected then; so two displays timing out in one check give each control two notices.
  The keys of a Map are distinct.
\<close>

theorem heartbeat_check_evicts:
  assumes d: "distinct (map fst (heartbeats s))"
    and sp: "heartbeats s = pre @ (i, lastBeat) # post"
    and t: "now - lastBeat > HEARTBEAT_TIMEOUT"
    and c: "connected io i"
    and pre: "fold (heartbeat_entry now) pre (io, s, []) = (io1, s1, out1)"
    and whole: "heartbeat_check now io s = (io', s', out)"
  shows "io' i = None \<and>
     \<not> Map_has i (presentationWindows s') \<and> \<not> Map_has i (controlPanels s') \<and>
     \<not> Map_has i (messageQueue s') \<and> \<not> Map_has i (heartbeats s') \<and>
     (Map_has i (presentationWindows s) \<longrightarrow>
        (\<forall>c \<in> keys (controlPanels s1). connected io1 c \<and> c \<noteq> i \<longrightarrow>
           (\<exists>d. (''presentationDisconnected'', d) \<in> set (received c out))) \<and>
        (\<forall>c \<in> keys (controlPanels s). connected io' c \<longrightarrow>
           (\<exists>d. (''presentationDisconnected'', d) \<in> set (received c out)))) \<and>
     (\<forall>x \<in> set out. fst (snd x) = ''presentationDisconnected'' \<and> fst x \<in> keys (controlPanels s)) \<and>
     fold (heartbeat_entry now) post
       (io1(i := None),
        s1\<lparr>presentationWindows := Map_delete i (presentationWindows s1),
           controlPanels := Map_delete i (controlPanels s1),
           messageQueue := Map_delete i (messageQueue s1),
           heartbeats := Map_delete i (heartbeats s1)\<rparr>,
        out1 @ (if Map_has i (presentationWindows s)
                then notices (io1(i := None)) (controlPanels s1) else [])) = (io', s', out) \<and>
     (\<exists>rest. out = out1 @ (if Map_has i (presentationWindows s)
                             then notices (io1(i := None)) (controlPanels s1) else []) @ rest)"
proof -
  have ipre: "i \<notin> fst ` set pre"
    using d by (simp add: sp)
  have f1: "io1 i = io i" "Map_get i (presentationWindows s1) = Map_get i (presentationWindows s)"
    using sweep_frame [OF pre ipre] by simp_all
  have c1: "connected io1 i" using c f1(1) by (simp add: connected_def)
  obtain io2 s2 out2 where st: "heartbeat_entry now (i, lastBeat) (io1, s1, out1) = (io2, s2, out2)"
    by (cases "heartbeat_entry now (i, lastBeat) (io1, s1, out1)")
  have io2: "io2 i = None"
    and gone2: "Map_get i (presentationWindows s2) = None" "Map_get i (controlPanels s2) = None"
      "Map_get i (messageQueue s2) = None" "Map_get i (heartbeats s2) = None"
    and out2: "out2 = out1 @ (if Map_has i (presentationWindows s1)
                  then notices (io1(i := None)) (controlPanels s1) else [])"
    using st t c1 by (auto simp: heartbeat_entry_eq delete_conv')
  have rest: "fold (heartbeat_entry now) post (io2, s2, out2) = (io', s', out)"
    using whole pre st by (simp add: heartbeat_check_def sp)
  have gone: "io' i = None \<and>
     \<not> Map_has i (presentationWindows s') \<and> \<not> Map_has i (controlPanels s') \<and>
     \<not> Map_has i (messageQueue s') \<and> \<not> Map_has i (heartbeats s')"
    using sweep_mono [OF rest, of i] io2 gone2 by (simp add: Map_has_def)
  from sweep_out [OF rest] obtain new where new: "out = out2 @ new" by blast
  have exact: "\<exists>d. (''presentationDisconnected'', d) \<in> set (received c out)"
    if disp: "Map_has i (presentationWindows s)"
      and ck: "c \<in> keys (controlPanels s1)" and cc: "connected io1 c" and ci: "c \<noteq> i" for c
  proof -
    have "Map_has i (presentationWindows s1)" using disp f1(2) by (simp add: Map_has_def)
    moreover have "connected (io1(i := None)) c" using cc ci by (simp add: connected_def)
    ultimately have "(c, ''presentationDisconnected'', IdObj c) \<in> set out2"
      using ck by (auto simp: out2 notices_set)
    then have "(c, ''presentationDisconnected'', IdObj c) \<in> set out" by (simp add: new)
    then show ?thesis using received_member by fast
  qed
  have tail: "fold (heartbeat_entry now) ((i, lastBeat) # post) (io1, s1, out1) = (io', s', out)"
    using rest st by simp
  have survivor: "\<exists>d. (''presentationDisconnected'', d) \<in> set (received c out)"
    if disp: "Map_has i (presentationWindows s)"
      and ck: "c \<in> keys (controlPanels s)" and cc: "connected io' c" for c
  proof -
    have ci: "c \<noteq> i" using cc gone by (auto simp: connected_def)
    have a: "io' c = io1 c"
      using sweep_control_kept [OF tail, of c] cc by (auto simp: connected_def)
    then have cc1: "connected io1 c" using cc by (simp add: connected_def)
    then have "Map_get c (controlPanels s1) = Map_get c (controlPanels s)"
      using sweep_control_kept [OF pre, of c] by (auto simp: connected_def)
    then have "c \<in> keys (controlPanels s1)" using ck by (simp add: keys_map_of)
    then show ?thesis using exact disp cc1 ci by blast
  qed
  have only: "\<forall>x \<in> set out. fst (snd x) = ''presentationDisconnected'' \<and> fst x \<in> keys (controlPanels s)"
    using sweep_out [of now "heartbeats s" io s "[]" io' s' out] whole
    by (auto simp: heartbeat_check_def)
  have same: "Map_has i (presentationWindows s1) = Map_has i (presentationWindows s)"
    using f1(2) by (simp add: Map_has_def)
  have st2: "io2 = io1(i := None)"
    "s2 = s1\<lparr>presentationWindows := Map_delete i (presentationWindows s1),
             controlPanels := Map_delete i (controlPanels s1),
             messageQueue := Map_delete i (messageQueue s1),
             heartbeats := Map_delete i (heartbeats s1)\<rparr>"
    using st t c1 by (simp_all add: heartbeat_entry_eq)
  have tie: "fold (heartbeat_entry now) post
       (io1(i := None),
        s1\<lparr>presentationWindows := Map_delete i (presentationWindows s1),
           controlPanels := Map_delete i (controlPanels s1),
           messageQueue := Map_delete i (messageQueue s1),
           heartbeats := Map_delete i (heartbeats s1)\<rparr>,
        out1 @ (if Map_has i (presentationWindows s)
                then notices (io1(i := None)) (controlPanels s1) else [])) = (io', s', out)"
    using rest by (simp only: st2 out2 same)
  have ext: "\<exists>rest. out = out1 @ (if Map_has i (presentationWindows s)
                             then notices (io1(i := None)) (controlPanels s1) else []) @ rest"
    using new by (simp add: out2 same)
  have notif: "Map_has i (presentationWindows s) \<longrightarrow>
        (\<forall>c \<in> keys (controlPanels s1). connected io1 c \<and> c \<noteq> i \<longrightarrow>
           (\<exists>d. (''presentationDisconnected'', d) \<in> set (received c out))) \<and>
        (\<forall>c \<in> keys (controlPanels s). connected io' c \<longrightarrow>
           (\<exists>d. (''presentationDisconnected'', d) \<in> set (received c out)))"
    using exact survivor by blast
  show ?thesis
    using gone notif only tie ext by (intro conjI) simp_all
qed

text \<open>
  Controls \<open>c\<close> and \<open>e\<close>, display \<open>d\<close>; at 100000 the beats of \<open>d\<close> and \<open>e\<close> are too
  old. \<open>d\<close> is evicted first, and both controls are told.
\<close>

theorem heartbeat_check_evicts_witness:
  "distinct (map fst [(''c'', 100000 :: int), (''d'', 1), (''e'', 2)]) \<and>
   [(''c'', 100000 :: int), (''d'', 1), (''e'', 2)] = [(''c'', 100000)] @ (''d'', 1) # [(''e'', 2)] \<and>
   (100000 :: int) - 1 > HEARTBEAT_TIMEOUT \<and>
   connected [''c'' \<mapsto> True, ''d'' \<mapsto> True, ''e'' \<mapsto> True] ''d'' \<and>
   (\<exists>io' s' out.
      heartbeat_check 100000 [''c'' \<mapsto> True, ''d'' \<mapsto> True, ''e'' \<mapsto> True]
        \<lparr>presentationWindows = [(''d'', \<lparr>connectedAt = 1, lastHeartbeat = 1\<rparr>)],
         controlPanels = [(''c'', \<lparr>connectedAt = 0, lastHeartbeat = 0\<rparr>),
                          (''e'', \<lparr>connectedAt = 2, lastHeartbeat = 2\<rparr>)],
         messageQueue = ([] :: (sid \<times> string msg list) list),
         heartbeats = [(''c'', 100000), (''d'', 1), (''e'', 2)]\<rparr> = (io', s', out) \<and>
      io' ''d'' = None \<and> \<not> Map_has ''d'' (presentationWindows s') \<and>
      \<not> Map_has ''d'' (heartbeats s') \<and>
      (\<exists>x. (''presentationDisconnected'', x) \<in> set (received ''c'' out)) \<and>
      (\<exists>x. (''presentationDisconnected'', x) \<in> set (received ''e'' out)) \<and>
      (\<exists>rest. out = [(''c'', ''presentationDisconnected'', IdObj ''c''),
                       (''e'', ''presentationDisconnected'', IdObj ''e'')] @ rest))"
proof -
  let ?s = "\<lparr>presentationWindows = [(''d'', \<lparr>connectedAt = 1, lastHeartbeat = 1\<rparr>)],
            controlPanels = [(''c'', \<lparr>connectedAt = 0, lastHeartbeat = 0\<rparr>),
                             (''e'', \<lparr>connectedAt = 2, lastHeartbeat = 2\<rparr>)],
            messageQueue = ([] :: (sid \<times> string msg list) list),
            heartbeats = [(''c'', 100000), (''d'', 1), (''e'', 2)]\<rparr>"
  let ?io = "[''c'' \<mapsto> True, ''d'' \<mapsto> True, ''e'' \<mapsto> True] :: sockets"
  obtain io' s' out where r: "heartbeat_check 100000 ?io ?s = (io', s', out)"
    by (cases "heartbeat_check 100000 ?io ?s")
  have h1: "distinct (map fst (heartbeats ?s))" by simp
  have h2: "heartbeats ?s = [(''c'', 100000)] @ (''d'', 1) # [(''e'', 2)]" by simp
  have h3: "(100000 :: int) - 1 > HEARTBEAT_TIMEOUT" by (simp add: HEARTBEAT_TIMEOUT_def)
  have h4: "connected ?io ''d''" by (simp add: connected_def)
  have h5: "fold (heartbeat_entry 100000) [(''c'', 100000)] (?io, ?s, []) = (?io, ?s, [])"
    by (simp add: heartbeat_entry.simps HEARTBEAT_TIMEOUT_def)
  have disp: "Map_has ''d'' (presentationWindows ?s)" by (simp add: Map_has_def)
  have ck: "''c'' \<in> keys (controlPanels ?s)" "''e'' \<in> keys (controlPanels ?s)"
    by (simp_all add: keys_def)
  have cc: "connected ?io ''c''" "connected ?io ''e''" by (simp_all add: connected_def)
  note th = heartbeat_check_evicts [OF h1 h2 h3 h4 h5 r]
  have "io' ''d'' = None" "\<not> Map_has ''d'' (presentationWindows s')"
    "\<not> Map_has ''d'' (heartbeats s')"
    using th by simp_all
  moreover have "\<exists>x. (''presentationDisconnected'', x) \<in> set (received ''c'' out)"
    using th disp ck(1) cc(1) by fastforce
  moreover have "\<exists>x. (''presentationDisconnected'', x) \<in> set (received ''e'' out)"
    using th disp ck(2) cc(2) by fastforce
  moreover have "\<exists>rest. out = [(''c'', ''presentationDisconnected'', IdObj ''c''),
                       (''e'', ''presentationDisconnected'', IdObj ''e'')] @ rest"
    using th disp by (simp add: notices_def connected_def)
  ultimately show ?thesis using r h1 h3 h4 by auto
qed

subsection \<open>The mailbox\<close>

text \<open>
  On every run of the server the mailbox stays empty and every registered display has a
  connected socket: a display leaves \<open>presentationWindows\<close> in the same \<open>disconnect\<close>
  handler that follows the removal of its socket, so the fan-out never meets a registered
  display that is not connected, and the \<open>connection\<close> handler never finds anything queued.
\<close>

lemma received_append: "received w (xs @ ys) = received w xs @ received w ys"
  by (simp add: received_def)

lemma received_Nil: "received w [] = []"
  by (simp add: received_def)

lemma keys_delete_eq: "keys (Map_delete j m) = keys m - {j}"
  by (auto simp: keys_def AList.delete_eq)

lemma keys_set: "keys (Map_set j v m) = insert j (keys m)"
  by (simp add: keys_def dom_map_of_conv_image_fst [symmetric] update_conv')

lemma forward_all_connected:
  "\<forall>w \<in> keys ws. connected io w \<Longrightarrow> fst (fold (forward_to_window io) ws (mq, out)) = mq"
proof (induction ws arbitrary: out)
  case Nil
  show ?case by simp
next
  case (Cons e ws)
  obtain w m where e: "e = (w, m)" by (cases e)
  have c: "connected io w" and r: "\<forall>w \<in> keys ws. connected io w"
    using Cons.prems by (simp_all add: e keys_def)
  show ?case using Cons.IH [OF r] by (simp add: e c)
qed

lemma stale_keys: "keys (fold (stale_entry now) es m) \<subseteq> keys m"
proof (induction es arbitrary: m)
  case Nil
  show ?case by simp
next
  case (Cons e es)
  obtain j d where e: "e = (j, d)" by (cases e)
  have "keys (stale_entry now (j, d) m) \<subseteq> keys m"
    by (simp add: keys_delete_eq)
  then show ?case using Cons.IH [of "stale_entry now (j, d) m"] by (auto simp: e)
qed

lemma entry_keeps_quiet:
  assumes "heartbeat_entry now (j, lb) (io, s, out) = (io1, s1, out1)"
    and "messageQueue s = []" and "\<forall>w \<in> keys (presentationWindows s). connected io w"
  shows "messageQueue s1 = [] \<and> (\<forall>w \<in> keys (presentationWindows s1). connected io1 w)"
  using assms
  by (auto simp: heartbeat_entry_eq keys_delete_eq connected_def split: if_splits)

lemma sweep_keeps_quiet:
  assumes "fold (heartbeat_entry now) es (io, s, out) = (io', s', out')"
    and "messageQueue s = []" and "\<forall>w \<in> keys (presentationWindows s). connected io w"
  shows "messageQueue s' = [] \<and> (\<forall>w \<in> keys (presentationWindows s'). connected io' w)"
  using assms
proof (induction es arbitrary: io s out)
  case Nil
  then show ?case by simp
next
  case (Cons e es)
  obtain j lb where e: "e = (j, lb)" by (cases e)
  obtain io1 s1 out1 where st: "heartbeat_entry now (j, lb) (io, s, out) = (io1, s1, out1)"
    by (cases "heartbeat_entry now (j, lb) (io, s, out)")
  have r: "fold (heartbeat_entry now) es (io1, s1, out1) = (io', s', out')"
    using Cons.prems(1) by (simp add: e st)
  from entry_keeps_quiet [OF st Cons.prems(2,3)]
  have q: "messageQueue s1 = []" "\<forall>w \<in> keys (presentationWindows s1). connected io1 w"
    by simp_all
  show ?case using Cons.IH [OF r q] .
qed

lemma step_keeps_quiet:
  assumes "messageQueue (server y) = []"
    and "\<forall>w \<in> keys (presentationWindows (server y)). connected (sockets y) w"
  shows "messageQueue (server (step e y)) = [] \<and>
         (\<forall>w \<in> keys (presentationWindows (server (step e y))). connected (sockets (step e y)) w)"
proof (cases e)
  case (Connect i now)
  then show ?thesis using assms by (auto simp: on_connection_def connected_def)
next
  case (Ping i now)
  then show ?thesis using assms by (simp add: on_ping_def)
next
  case (RegisterPresentation i now regdata callback)
  then show ?thesis using assms by (simp add: on_registerPresentation_def keys_set)
next
  case (RegisterControl i now regdata callback)
  then show ?thesis using assms by (simp add: on_registerControl_def)
next
  case (PresentationUpdate i payload callback)
  then show ?thesis
    using assms forward_all_connected [OF assms(2), of "messageQueue (server y)" "[]"]
    by (simp add: on_presentationUpdate_eq)
next
  case (Disconnect i)
  then show ?thesis
    using assms
    by (auto simp: socket_disconnect_def on_disconnect_eq keys_delete_eq connected_def Let_def)
next
  case (HeartbeatCheck now)
  obtain io' s' out where h: "heartbeat_check now (sockets y) (server y) = (io', s', out)"
    by (cases "heartbeat_check now (sockets y) (server y)")
  from sweep_keeps_quiet [OF h [unfolded heartbeat_check_def] assms]
  show ?thesis by (simp add: HeartbeatCheck h)
next
  case (StaleCleanup now)
  then show ?thesis
    using assms stale_keys [of now "presentationWindows (server y)" "presentationWindows (server y)"]
    by (auto simp: stale_cleanup_def Let_def)
qed

lemma run_keeps_quiet:
  assumes "messageQueue (server y) = []"
    and "\<forall>w \<in> keys (presentationWindows (server y)). connected (sockets y) w"
  shows "messageQueue (server (run evs y)) = [] \<and>
         (\<forall>w \<in> keys (presentationWindows (server (run evs y))). connected (sockets (run evs y)) w)"
  using assms
proof (induction evs arbitrary: y)
  case Nil
  then show ?case by (simp add: run_def)
next
  case (Cons e evs)
  from step_keeps_quiet [OF Cons.prems, of e]
  have q: "messageQueue (server (step e y)) = []"
    "\<forall>w \<in> keys (presentationWindows (server (step e y))). connected (sockets (step e y)) w"
    by simp_all
  show ?case using Cons.IH [OF q] by (simp add: run_def)
qed

lemma mailbox_never_used:
  "messageQueue (server (run evs start)) = [] \<and>
   (\<forall>w \<in> keys (presentationWindows (server (run evs start))).
      connected (sockets (run evs start)) w)"
  by (rule run_keeps_quiet) (simp_all add: start_def keys_def)

lemma connection_replays_nothing:
  "sent (run (evs @ [Connect i now]) start) = sent (run evs start)"
proof -
  have "messageQueue (server (run evs start)) = []" using mailbox_never_used by blast
  then show ?thesis by (simp add: run_def on_connection_def)
qed

text \<open>
  C3 (a display that is disconnected while N updates are broadcast receives exactly those N,
  in order and once each, when it registers again). The server has the mailbox for this
  (it queues for disconnected clients in the fan-out and sends the queued messages on
  connection), but nothing is ever replayed: when \<open>d\<close> disconnects, the \<open>disconnect\<close>
  handler takes it out of \<open>presentationWindows\<close> and deletes its mailbox, so the two updates
  broadcast meanwhile are not queued, and when \<open>d\<close> connects again under the same
  identifier and registers it is written nothing.
\<close>

theorem nothing_replayed_after_disconnect:
  "received ''d''
     (sent (run [Connect ''c'' 0, Connect ''d'' 1, RegisterControl ''c'' 2 ''null'' True,
                 RegisterPresentation ''d'' 3 ''null'' True, Disconnect ''d'',
                 PresentationUpdate ''c'' ''{segment:Seg1}'' True,
                 PresentationUpdate ''c'' ''{segment:Seg2}'' True,
                 Connect ''d'' 10, RegisterPresentation ''d'' 11 ''null'' True] start)) = [] \<and>
   acks (run [Connect ''c'' 0, Connect ''d'' 1, RegisterControl ''c'' 2 ''null'' True,
                 RegisterPresentation ''d'' 3 ''null'' True, Disconnect ''d'',
                 PresentationUpdate ''c'' ''{segment:Seg1}'' True,
                 PresentationUpdate ''c'' ''{segment:Seg2}'' True,
                 Connect ''d'' 10, RegisterPresentation ''d'' 11 ''null'' True] start) =
     [(''c'', Success), (''d'', Success), (''c'', Success), (''c'', Success), (''d'', Success)]"
  by code_simp

end
